theory Spec2Isabelle
  imports Main "HOL-Library.Word"
begin

section \<open>The cite script of ZotHero (src/cpjs/cite.js)\<close>

text \<open>
  The script is JavaScript for Automation: it parses its arguments, reads a CSL style and
  a CSL-JSON record from disk, drives a citeproc engine and returns the citation as HTML
  and RTF. The functions of the script are embedded one by one, under their own names.
  What the script calls but does not define (Foundation's file manager and string
  decoder, \<open>JSON.parse\<close>, the CSL engine) is taken as a parameter.
\<close>

subsection \<open>JavaScript values\<close>

text \<open>
  A JavaScript string is a sequence of UTF-16 code units. \<open>js\<close> turns an ASCII literal
  into such a string.
\<close>

type_synonym jschar = "16 word"
type_synonym jsstr = "jschar list"

definition js :: "string \<Rightarrow> jsstr" where
  "js = map of_char"

text \<open>
  The values that flow through the options object and out of \<open>readFile\<close>:
  \<open>undefined\<close>, \<open>null\<close> or a string.
\<close>

datatype jsval = JUndefined | JNull | JString jsstr

text \<open>ToBoolean: \<open>undefined\<close>, \<open>null\<close> and the empty string are falsy.\<close>

fun truthy :: "jsval \<Rightarrow> bool" where
  "truthy JUndefined = False"
| "truthy JNull = False"
| "truthy (JString s) = (s \<noteq> [])"

text \<open>ToString, as a template literal or \<open>+\<close> with a string applies it.\<close>

fun toString :: "jsval \<Rightarrow> jsstr" where
  "toString JUndefined = js ''undefined''"
| "toString JNull = js ''null''"
| "toString (JString s) = s"

text \<open>\<open>String.prototype.startsWith\<close> at position 0.\<close>

definition startsWith :: "jsstr \<Rightarrow> jsstr \<Rightarrow> bool" where
  "startsWith s p \<longleftrightarrow> take (length p) s = p"

text \<open>
  The line terminators and the white space of ECMAScript; \<open>String.prototype.trim\<close>
  removes both from the two ends of a string.
\<close>

definition isLineTerminator :: "jschar \<Rightarrow> bool" where
  "isLineTerminator c \<longleftrightarrow> c = 0x000A \<or> c = 0x000D \<or> c = 0x2028 \<or> c = 0x2029"

definition isWhiteSpace :: "jschar \<Rightarrow> bool" where
  "isWhiteSpace c \<longleftrightarrow>
     c = 0x0009 \<or> c = 0x000B \<or> c = 0x000C \<or> c = 0x0020 \<or> c = 0x00A0 \<or> c = 0xFEFF \<or>
     c = 0x1680 \<or> (0x2000 \<le> c \<and> c \<le> 0x200A) \<or> c = 0x202F \<or> c = 0x205F \<or> c = 0x3000"

definition trimmable :: "jschar \<Rightarrow> bool" where
  "trimmable c \<longleftrightarrow> isWhiteSpace c \<or> isLineTerminator c"

definition trim :: "jsstr \<Rightarrow> jsstr" where
  "trim s = rev (dropWhile trimmable (rev (dropWhile trimmable s)))"

text \<open>\<open>Array.prototype.join\<close> on an array of strings.\<close>

fun join :: "jsstr \<Rightarrow> jsstr list \<Rightarrow> jsstr" where
  "join sep [] = []"
| "join sep [x] = x"
| "join sep (x # y # ys) = x @ sep @ join sep (y # ys)"

subsection \<open>\<open>Array.prototype.contains\<close> (lines 7-13)\<close>

text \<open>
  \<^verbatim>\<open>for (var i; i < this.length; i++) { if (this[i] === val) return true }  return false\<close>

  The counter is declared without a value, so it starts as \<open>undefined\<close>. The counter is
  modelled with the three kinds of value it can take: \<open>undefined\<close>, \<open>NaN\<close> (what
  \<open>undefined++\<close> leaves) and an index. \<open>i < n\<close> converts \<open>undefined\<close> to \<open>NaN\<close>, and a
  comparison with \<open>NaN\<close> is false.
\<close>

datatype counter = Undefined | NaN | Index nat

fun less_than :: "counter \<Rightarrow> nat \<Rightarrow> bool" where
  "less_than (Index i) n = (i < n)"
| "less_than Undefined n = False"
| "less_than NaN n = False"

fun increment :: "counter \<Rightarrow> counter" where
  "increment (Index i) = Index (Suc i)"
| "increment Undefined = NaN"
| "increment NaN = NaN"

fun element :: "'a list \<Rightarrow> counter \<Rightarrow> 'a option" where
  "element xs (Index i) = (if i < length xs then Some (xs ! i) else None)"
| "element xs Undefined = None"
| "element xs NaN = None"

function contains_from :: "'a list \<Rightarrow> 'a \<Rightarrow> counter \<Rightarrow> bool" where
  "contains_from this val i =
     (if less_than i (length this)
      then (if element this i = Some val then True else contains_from this val (increment i))
      else False)"
  by pat_completeness auto
termination
proof (relation "measure (\<lambda>(this, val, i). case i of Index k \<Rightarrow> length this - k | _ \<Rightarrow> 0)")
  show "wf (measure (\<lambda>(this :: 'a list, val :: 'a, i). case i of Index k \<Rightarrow> length this - k | _ \<Rightarrow> 0))"
    by simp
next
  fix this :: "'a list" and val :: 'a and i
  assume "less_than i (length this)" and "element this i \<noteq> Some val"
  then show "((this, val, increment i), (this, val, i))
       \<in> measure (\<lambda>(this, val, i). case i of Index k \<Rightarrow> length this - k | _ \<Rightarrow> 0)"
    by (cases i) auto
qed

declare contains_from.simps [simp del]

definition contains :: "'a list \<Rightarrow> 'a \<Rightarrow> bool" where
  "contains this val = contains_from this val Undefined"

subsection \<open>\<open>stripOuterDiv\<close> (lines 113-119)\<close>

text \<open>
  \<^verbatim>\<open>var match = new RegExp('^<div.*?>(.+)</div>$').exec(html)\<close>

  The expression has no flags: \<open>^\<close> matches at index 0 only, \<open>$\<close> at the end of the
  input only, and \<open>.\<close> matches every code unit but a line terminator. The matcher below
  follows the backtracking order of the expression, piece by piece, and returns the text
  of group 1 of the first match found.
\<close>

definition dot :: "jschar \<Rightarrow> bool" where
  "dot c \<longleftrightarrow> \<not> isLineTerminator c"

text \<open>
  The rest of \<open>.+\<close> after its first character, greedy, then \<open></div>$\<close>: take one more
  character first; when that way fails, the input left must be the closing tag. The
  result is what the dots consumed.
\<close>

fun greedy_dots :: "jsstr \<Rightarrow> jsstr option" where
  "greedy_dots [] = None"
| "greedy_dots (c # cs) =
     (case (if dot c then greedy_dots cs else None) of
        Some g \<Rightarrow> Some (c # g)
      | None \<Rightarrow> if c # cs = js ''</div>'' then Some [] else None)"

text \<open>\<open>(.+)</div>$\<close>: at least one character.\<close>

definition group_then_close :: "jsstr \<Rightarrow> jsstr option" where
  "group_then_close s =
     (case s of
        [] \<Rightarrow> None
      | c # cs \<Rightarrow> if dot c then map_option ((#) c) (greedy_dots cs) else None)"

text \<open>
  \<open>.*?>(.+)</div>$\<close>: lazy, so the rest of the expression is tried first (a \<open>>\<close> here,
  code unit 0x3E), and only when that fails does \<open>.*?\<close> take one more character.
\<close>

fun lazy_dots :: "jsstr \<Rightarrow> jsstr option" where
  "lazy_dots [] = None"
| "lazy_dots (c # cs) =
     (case (if c = 0x3E then group_then_close cs else None) of
        Some g \<Rightarrow> Some g
      | None \<Rightarrow> if dot c then lazy_dots cs else None)"

text \<open>The whole expression, anchored at index 0: \<open>match[1]\<close>, or \<open>None\<close> for \<open>null\<close>.\<close>

definition exec_pattern :: "jsstr \<Rightarrow> jsstr option" where
  "exec_pattern html =
     (if take 4 html = js ''<div'' then lazy_dots (drop 4 html) else None)"

definition stripOuterDiv :: "jsstr \<Rightarrow> jsstr" where
  "stripOuterDiv html = (case exec_pattern html of Some g \<Rightarrow> g | None \<Rightarrow> html)"

text \<open>
  The shape of the strings the expression matches, written without the matcher: the
  string begins with \<open><div\<close> and ends with \<open></div>\<close>, what lies between the two holds no
  line terminator, and it holds a \<open>>\<close> that is not its last character. \<open>inner\<close> is what
  follows the first such \<open>>\<close>.
\<close>

definition between_tags :: "jsstr \<Rightarrow> jsstr" where
  "between_tags s = take (length s - 10) (drop 4 s)"

definition wrapper_shape :: "jsstr \<Rightarrow> bool" where
  "wrapper_shape s \<longleftrightarrow>
     take 4 s = js ''<div'' \<and> drop (length s - 6) s = js ''</div>'' \<and>
     list_all dot (between_tags s) \<and> 0x3E \<in> set (butlast (between_tags s))"

definition inner :: "jsstr \<Rightarrow> jsstr" where
  "inner s = tl (dropWhile (\<lambda>c. c \<noteq> 0x3E) (between_tags s))"

text \<open>
  The same shape as an equation: \<open>s\<close> is \<open><div\<close>, then \<open>a\<close> without a \<open>>\<close>, then \<open>>\<close>,
  then a non-empty \<open>g\<close>, then \<open></div>\<close>, and neither \<open>a\<close> nor \<open>g\<close> holds a line terminator.
\<close>

definition decomposes :: "jsstr \<Rightarrow> jsstr \<Rightarrow> jsstr \<Rightarrow> bool" where
  "decomposes s a g \<longleftrightarrow>
     s = js ''<div'' @ a @ 0x3E # g @ js ''</div>'' \<and> 0x3E \<notin> set a \<and> list_all dot a \<and>
     g \<noteq> [] \<and> list_all dot g"

subsection \<open>\<open>showHelp\<close> and \<open>parseArgs\<close> (lines 15-104)\<close>

definition usage :: jsstr where
  "usage = concat (map (\<lambda>l. js l @ [0x000A])
     [''cite [options] <style.csl> <csl.json>'',
      '''',
      ''Generate an HTML CSL citation for item defined in <csl.json> using'',
      ''the stylesheet specified by <style.csl>.'',
      '''',
      ''Usage:'',
      ''    cite [-b] [-v] [-l <lang>] [-L <dir>] <style.csl> <csl.json>'',
      ''    cite (-h|--help)'',
      '''',
      ''Options:'',
      ''        -b, --bibliography               Generate bibliography-style citation'',
      ''        -l <lang>, --locale <lang>       Locale for citation'',
      ''        -L <dir>, --locale-dir <dir>     Directory locale files are in'',
      ''        -v, --verbose                    Show status messages'',
      ''        -h, --help                       Show this message and exit'',
      ''''])"

text \<open>
  \<open>showHelp\<close> ends the process: \<open>$.exit(status)\<close> does not return. An exit is the
  lines handed to \<open>console.log\<close>, in order, and the status.
\<close>

record exit =
  console :: "jsstr list"
  status :: nat

definition showHelp :: "jsval \<Rightarrow> exit" where
  "showHelp errMsg =
     (if truthy errMsg
      then \<lparr>console = [js ''error: '' @ toString errMsg, usage], status = 1\<rparr>
      else \<lparr>console = [usage], status = 0\<rparr>)"

text \<open>The options object. Its field \<open>locale\<close> is written \<open>locale'\<close> here.\<close>

record opts =
  locale' :: jsval
  localeDir :: jsval
  style :: jsval
  csl :: jsval
  bibliography :: bool
  verbose :: bool

definition initial_opts :: opts where
  "initial_opts =
     \<lparr>locale' = JNull, localeDir = JString (js ''./locales''), style = JNull, csl = JNull,
      bibliography = False, verbose = False\<rparr>"

text \<open>Reading an array of strings at an index: \<open>undefined\<close> past the end.\<close>

definition at :: "jsstr list \<Rightarrow> nat \<Rightarrow> jsval" where
  "at xs i = (if i < length xs then JString (xs ! i) else JUndefined)"

text \<open>
  The loop of lines 64-91, from index \<open>i\<close> on. A value-taking flag reads \<open>argv[i+1]\<close>
  and steps over it (\<open>i++\<close> in the branch, \<open>i++\<close> of the loop).
\<close>

function parse_loop :: "jsstr list \<Rightarrow> nat \<Rightarrow> opts \<Rightarrow> jsstr list \<Rightarrow> exit + opts \<times> jsstr list" where
  "parse_loop argv i opts args =
     (if i < length argv then
        (let s = argv ! i in
         if startsWith s (js ''-'') then
           if s = js ''--locale'' \<or> s = js ''-l'' then
             parse_loop argv (i + 2) (opts\<lparr>locale' := at argv (i + 1)\<rparr>) args
           else if s = js ''--locale-dir'' \<or> s = js ''-L'' then
             parse_loop argv (i + 2) (opts\<lparr>localeDir := at argv (i + 1)\<rparr>) args
           else if s = js ''--bibliography'' \<or> s = js ''-b'' then
             parse_loop argv (i + 1) (opts\<lparr>bibliography := True\<rparr>) args
           else if s = js ''--verbose'' \<or> s = js ''-v'' then
             parse_loop argv (i + 1) (opts\<lparr>verbose := True\<rparr>) args
           else Inl (showHelp (JString (js ''unknown option: '' @ s)))
         else parse_loop argv (i + 1) opts (args @ [s]))
      else Inr (opts, args))"
  by pat_completeness auto
termination
  by (relation "measure (\<lambda>(argv, i, opts, args). length argv - i)") auto

declare parse_loop.simps [simp del]

definition isHelp :: "jsstr \<Rightarrow> bool" where
  "isHelp s \<longleftrightarrow> s = js ''-h'' \<or> s = js ''--help''"

definition parseArgs :: "jsstr list \<Rightarrow> exit + opts" where
  "parseArgs argv =
     (if list_ex isHelp argv then Inl (showHelp JUndefined)
      else if length argv = 0 then Inl (showHelp JUndefined)
      else
        (case parse_loop argv 0 initial_opts [] of
           Inl e \<Rightarrow> Inl e
         | Inr (opts, args) \<Rightarrow>
             if length args > 2 then Inl (showHelp (JString (js ''script takes 2 arguments'')))
             else Inr (opts\<lparr>style := if length args > 0 then JString (args ! 0) else style opts,
                            csl := if length args > 1 then JString (args ! 1) else csl opts\<rparr>)))"

text \<open>
  The roles of the tokens as section 4.1 of the specification words them, written
  without the parser: going from left to right, a token that starts with \<open>-\<close> is a flag,
  the flags \<open>-l\<close> and \<open>-L\<close> (and their long forms) take the token after them as their
  value, and every other token is positional.
\<close>

definition takes_value :: "jsstr \<Rightarrow> bool" where
  "takes_value s \<longleftrightarrow> s = js ''--locale'' \<or> s = js ''-l'' \<or> s = js ''--locale-dir'' \<or> s = js ''-L''"

definition known_flag :: "jsstr \<Rightarrow> bool" where
  "known_flag s \<longleftrightarrow>
     takes_value s \<or> s = js ''--bibliography'' \<or> s = js ''-b'' \<or> s = js ''--verbose'' \<or> s = js ''-v''"

fun flag_tokens :: "jsstr list \<Rightarrow> jsstr list" where
  "flag_tokens [] = []"
| "flag_tokens (s # rest) =
     (if startsWith s (js ''-'')
      then s # flag_tokens (if takes_value s then drop 1 rest else rest)
      else flag_tokens rest)"

fun positionals :: "jsstr list \<Rightarrow> jsstr list" where
  "positionals [] = []"
| "positionals (s # rest) =
     (if startsWith s (js ''-'')
      then positionals (if takes_value s then drop 1 rest else rest)
      else s # positionals rest)"

subsection \<open>\<open>readFile\<close> (lines 106-110)\<close>

text \<open>
  \<^verbatim>\<open>var contents = $.NSString.alloc.initWithDataEncoding(fm.contentsAtPath(path), $.NSUTF8StringEncoding)\<close>
  \<^verbatim>\<open>return ObjC.unwrap(contents)\<close>

  Foundation is not part of the script, so its two calls are parameters.
  \<open>contentsAtPath\<close> returns the bytes of the file, or \<open>nil\<close> (\<open>None\<close>) when there is no
  file it can read; it raises nothing. \<open>initWithDataEncoding\<close> decodes bytes as UTF-8 and
  may return \<open>nil\<close>; what it makes of \<open>nil\<close> data is left to the parameter.
  \<open>ObjC.unwrap\<close> turns \<open>nil\<close> into \<open>undefined\<close>. The script has no \<open>throw\<close> and no check
  of its own. Exceptions are values: \<open>Inl\<close> is a thrown exception.
\<close>

datatype exn = Exception jsstr

type_synonym 'a result = "exn + 'a"

definition and_then :: "'a result \<Rightarrow> ('a \<Rightarrow> 'b result) \<Rightarrow> 'b result" where
  "and_then m f = (case m of Inl x \<Rightarrow> Inl x | Inr a \<Rightarrow> f a)"

record platform =
  contentsAtPath :: "jsval \<Rightarrow> 8 word list option"
  initWithDataEncoding :: "8 word list option \<Rightarrow> jsstr option"

definition unwrap :: "jsstr option \<Rightarrow> jsval" where
  "unwrap contents = (case contents of None \<Rightarrow> JUndefined | Some s \<Rightarrow> JString s)"

definition readFile :: "platform \<Rightarrow> jsval \<Rightarrow> jsval result" where
  "readFile fm path = Inr (unwrap (initWithDataEncoding fm (contentsAtPath fm path)))"

subsection \<open>The \<open>Citer\<close> object (lines 122-151)\<close>

text \<open>
  \<open>JSON.parse\<close>, the property read \<open>this.item.id\<close> and the constructor \<open>CSL.Engine\<close> are
  not part of the script and are parameters; each may throw. The engine is given the
  two callbacks of the object, \<open>retrieveItem\<close> and \<open>retrieveLocale\<close>, the style text, the
  locale and the force flag.
\<close>

record ('j, 'id, 'e) citer =
  this_opts :: opts
  this_item :: 'j
  this_style :: jsval
  this_id :: 'id
  this_citer :: 'e

record ('j, 'id, 'e) globals =
  JSON_parse :: "jsval \<Rightarrow> 'j result"
  get_id :: "'j \<Rightarrow> 'id result"
  CSL_Engine :: "('id \<Rightarrow> 'j) \<Rightarrow> (jsval \<Rightarrow> jsstr list \<times> jsval result) \<Rightarrow> jsval \<Rightarrow> jsval \<Rightarrow> bool
                   \<Rightarrow> 'e result"

definition retrieveItem :: "'j \<Rightarrow> 'id \<Rightarrow> 'j" where
  "retrieveItem item requested = item"

text \<open>\<open>retrieveLocale\<close> returns the lines it logs when verbose, and what \<open>readFile\<close> gives.\<close>

definition retrieveLocale :: "platform \<Rightarrow> opts \<Rightarrow> jsval \<Rightarrow> jsstr list \<times> jsval result" where
  "retrieveLocale fm opts lang =
     ((if verbose opts
       then [js ''locale='' @ toString lang, js ''localeDir='' @ toString (localeDir opts)]
       else []),
      readFile fm (JString (toString (localeDir opts) @ js ''/locales-'' @ toString lang @ js ''.xml'')))"

text \<open>
  Lines 128-134: \<^verbatim>\<open>var locale = 'en', force = false;  if (opts.locale) { locale = opts.locale; force = true }\<close>
\<close>

definition effective_locale :: "opts \<Rightarrow> jsval \<times> bool" where
  "effective_locale opts =
     (if truthy (locale' opts) then (locale' opts, True) else (JString (js ''en''), False))"

definition Citer :: "platform \<Rightarrow> ('j, 'id, 'e) globals \<Rightarrow> opts \<Rightarrow> ('j, 'id, 'e) citer result" where
  "Citer fm G opts =
     and_then (readFile fm (csl opts)) (\<lambda>record_text.
     and_then (JSON_parse G record_text) (\<lambda>item.
     and_then (readFile fm (style opts)) (\<lambda>style_text.
     and_then (get_id G item) (\<lambda>item_id.
     and_then (CSL_Engine G (retrieveItem item) (retrieveLocale fm opts) style_text
                 (fst (effective_locale opts)) (snd (effective_locale opts))) (\<lambda>e.
     Inr \<lparr>this_opts = opts, this_item = item, this_style = style_text, this_id = item_id,
          this_citer = e\<rparr>)))))"

subsection \<open>\<open>Citer.prototype.cite\<close> (lines 153-176)\<close>

text \<open>
  The engine is stateful and is a black box: its four operations are parameters that
  take the state of the engine and return the new one, or throw. \<open>makeBibliography\<close>
  returns a two-element array, metadata and the list of entries.
\<close>

record ('id, 'm, 'e) engine =
  updateItems :: "'id list \<Rightarrow> 'e \<Rightarrow> 'e result"
  makeBibliography :: "'e \<Rightarrow> (('m \<times> jsstr list) \<times> 'e) result"
  makeCitationCluster :: "'id list \<Rightarrow> 'e \<Rightarrow> (jsstr \<times> 'e) result"
  setOutputFormat :: "jsstr \<Rightarrow> 'e \<Rightarrow> 'e result"

record data =
  html :: jsstr
  rtf :: jsstr

text \<open>\<open>cite\<close> returns the data object and the state it leaves the engine in.\<close>

definition cite :: "('id, 'm, 'e) engine \<Rightarrow> ('j, 'id, 'e) citer \<Rightarrow> (data \<times> 'e) result" where
  "cite E this =
     and_then (updateItems E [this_id this] (this_citer this)) (\<lambda>e1.
       if bibliography (this_opts this) then
         and_then (makeBibliography E e1) (\<lambda>(bib, e2).
         let html = trim (join [0x000A] (snd bib)) in
         and_then (setOutputFormat E (js ''rtf'') e2) (\<lambda>e3.
         and_then (makeBibliography E e3) (\<lambda>(bib', e4).
         Inr (\<lparr>html = stripOuterDiv html, rtf = join [0x000A] (snd bib')\<rparr>, e4))))
       else
         and_then (makeCitationCluster E [this_id this] e1) (\<lambda>(h, e2).
         and_then (setOutputFormat E (js ''rtf'') e2) (\<lambda>e3.
         and_then (makeCitationCluster E [this_id this] e3) (\<lambda>(r, e4).
         Inr (\<lparr>html = h, rtf = r\<rparr>, e4)))))"

text \<open>
  To observe the calls \<open>cite\<close> makes, an engine is wrapped: the wrapper keeps the state
  of the engine, the format set by the last \<open>setOutputFormat\<close> (\<open>None\<close> while the engine
  still has the format it was constructed with), and the list of the calls made so far,
  each with the format in force when it was made.
\<close>

datatype 'id call =
  UpdateItems "'id list"
| MakeBibliography
| MakeCitationCluster "'id list"
| SetOutputFormat jsstr

record ('id, 'e) traced =
  engine_state :: 'e
  format :: "jsstr option"
  calls :: "(jsstr option \<times> 'id call) list"

definition record_call :: "'id call \<Rightarrow> ('id, 'e) traced \<Rightarrow> 'e \<Rightarrow> ('id, 'e) traced" where
  "record_call c t e =
     \<lparr>engine_state = e,
      format = (case c of SetOutputFormat f \<Rightarrow> Some f | _ \<Rightarrow> format t),
      calls = calls t @ [(format t, c)]\<rparr>"

definition traced :: "('id, 'm, 'e) engine \<Rightarrow> ('id, 'm, ('id, 'e) traced) engine" where
  "traced E =
     \<lparr>updateItems = (\<lambda>ids t.
        and_then (updateItems E ids (engine_state t)) (\<lambda>e. Inr (record_call (UpdateItems ids) t e))),
      makeBibliography = (\<lambda>t.
        and_then (makeBibliography E (engine_state t)) (\<lambda>(r, e). Inr (r, record_call MakeBibliography t e))),
      makeCitationCluster = (\<lambda>ids t.
        and_then (makeCitationCluster E ids (engine_state t))
          (\<lambda>(r, e). Inr (r, record_call (MakeCitationCluster ids) t e))),
      setOutputFormat = (\<lambda>f t.
        and_then (setOutputFormat E f (engine_state t)) (\<lambda>e. Inr (record_call (SetOutputFormat f) t e)))\<rparr>"

definition fresh :: "'e \<Rightarrow> ('id, 'e) traced" where
  "fresh e = \<lparr>engine_state = e, format = None, calls = []\<rparr>"

subsection \<open>Sample inputs\<close>

text \<open>
  A file manager with no file at all, with a decoder that gives the stated result for
  \<open>nil\<close> data (\<open>nil\<close> again, or the empty string); and a small engine whose state is the
  name of its output format: a citation cluster is the format name, a colon and the
  first id, a bibliography is the given list of entries in the HTML format and one fixed
  entry in any other.
\<close>

definition no_files :: "jsstr option \<Rightarrow> platform" where
  "no_files of_nil =
     \<lparr>contentsAtPath = (\<lambda>path. None),
      initWithDataEncoding = (\<lambda>d. case d of None \<Rightarrow> of_nil | Some b \<Rightarrow> Some (map ucast b))\<rparr>"

definition sample_engine :: "jsstr list \<Rightarrow> (jsstr, unit, jsstr) engine" where
  "sample_engine entries =
     \<lparr>updateItems = (\<lambda>ids e. Inr e),
      makeBibliography = (\<lambda>e. Inr (((), if e = js ''html'' then entries else [js ''{entry}'']), e)),
      makeCitationCluster = (\<lambda>ids e. Inr (e @ js '':'' @ concat (take 1 ids), e)),
      setOutputFormat = (\<lambda>f e. Inr f)\<rparr>"

definition sample_citer :: "bool \<Rightarrow> 'e \<Rightarrow> (unit, jsstr, 'e) citer" where
  "sample_citer bib e =
     \<lparr>this_opts = initial_opts\<lparr>bibliography := bib\<rparr>, this_item = (),
      this_style = JString (js ''<style/>''), this_id = js ''r1'', this_citer = e\<rparr>"

definition sample_globals :: "(unit, jsstr, jsval \<times> bool) globals" where
  "sample_globals =
     \<lparr>JSON_parse = (\<lambda>text. Inr ()),
      get_id = (\<lambda>item. Inr (js ''r1'')),
      CSL_Engine = (\<lambda>retrieve_item retrieve_locale style_text lang force. Inr (lang, force))\<rparr>"

section \<open>Properties\<close>

subsection \<open>The membership helper\<close>

text \<open>
  Started at index 0 the loop is a membership test: the model of the loop is the loop.
\<close>

lemma contains_from_Index: "contains_from xs v (Index i) \<longleftrightarrow> v \<in> set (drop i xs)"
proof (induction "length xs - i" arbitrary: i)
  case 0
  then show ?case by (simp add: contains_from.simps)
next
  case (Suc n)
  then have i: "i < length xs" and n: "n = length xs - Suc i" by auto
  have "drop i xs = xs ! i # drop (Suc i) xs" using i by (simp add: Cons_nth_drop_Suc)
  with i Suc.hyps(1) [OF n] show ?case
    by (subst contains_from.simps) auto
qed

text \<open>
  C9. \<open>Array.prototype.contains\<close> returns \<open>false\<close> for every array and every value: its
  counter starts as \<open>undefined\<close>, the first test \<open>i < this.length\<close> is false, and the body
  never runs.
\<close>

theorem contains_always_false: "contains this val = False"
  by (simp add: contains_def contains_from.simps)

subsection \<open>What the regular expression matches\<close>

lemma close_tag: "js ''</div>'' = [0x3C, 0x2F, 0x64, 0x69, 0x76, 0x3E]"
  by (simp add: js_def)

lemma open_tag: "js ''<div'' = [0x3C, 0x64, 0x69, 0x76]"
  by (simp add: js_def)

lemma dot_gt: "dot 0x3E"
  by (simp add: dot_def isLineTerminator_def)

lemma greedy_dots_sound: "greedy_dots s = Some g \<Longrightarrow> s = g @ js ''</div>'' \<and> list_all dot g"
  by (induction s arbitrary: g) (auto split: option.splits if_splits)

lemma greedy_dots_complete: "list_all dot g \<Longrightarrow> greedy_dots (g @ js ''</div>'') = Some g"
proof (induction g)
  case Nil
  have "greedy_dots (tl (js ''</div>'')) = None"
  proof (cases "greedy_dots (tl (js ''</div>''))")
    case (Some g)
    from greedy_dots_sound [OF Some]
    have "length (tl (js ''</div>'')) = length (g @ js ''</div>'')" by simp
    then show ?thesis by (simp add: close_tag)
  qed simp
  then show ?case by (simp add: close_tag dot_def isLineTerminator_def)
next
  case (Cons c g)
  then show ?case by simp
qed

lemma greedy_dots_iff: "greedy_dots s = Some g \<longleftrightarrow> s = g @ js ''</div>'' \<and> list_all dot g"
  using greedy_dots_sound greedy_dots_complete by blast

lemma group_then_close_iff:
  "group_then_close s = Some g \<longleftrightarrow> g \<noteq> [] \<and> s = g @ js ''</div>'' \<and> list_all dot g"
  unfolding group_then_close_def
  by (cases s; cases g) (auto simp: greedy_dots_iff close_tag)

text \<open>
  The lazy quantifier stops at the first \<open>>\<close>: if the rest of the expression fails
  there, it fails after every later \<open>>\<close> too.
\<close>

lemma lazy_dots_sound:
  "lazy_dots s = Some g \<Longrightarrow>
     \<exists>a. s = a @ 0x3E # g @ js ''</div>'' \<and> 0x3E \<notin> set a \<and> list_all dot a \<and> g \<noteq> [] \<and>
         list_all dot g"
proof (induction s)
  case Nil
  then show ?case by simp
next
  case (Cons c cs)
  show ?case
  proof (cases "c = 0x3E \<and> group_then_close cs \<noteq> None")
    case True
    with Cons.prems have "group_then_close cs = Some g" by auto
    with True show ?thesis by (auto simp: group_then_close_iff intro!: exI [of _ "[]"])
  next
    case False
    with Cons.prems have d: "dot c" and l: "lazy_dots cs = Some g"
      by (auto split: if_splits option.splits)
    from Cons.IH [OF l] obtain a where
      a: "cs = a @ 0x3E # g @ js ''</div>''" "0x3E \<notin> set a" "list_all dot a" "g \<noteq> []"
         "list_all dot g"
      by blast
    have "c \<noteq> 0x3E"
    proof
      assume c: "c = 0x3E"
      have "group_then_close cs = Some (a @ 0x3E # g)"
        using a by (simp add: group_then_close_iff dot_gt)
      with c False show False by simp
    qed
    with a d show ?thesis by (auto intro!: exI [of _ "c # a"])
  qed
qed

lemma lazy_dots_complete:
  "0x3E \<notin> set a \<Longrightarrow> list_all dot a \<Longrightarrow> g \<noteq> [] \<Longrightarrow> list_all dot g \<Longrightarrow>
     lazy_dots (a @ 0x3E # g @ js ''</div>'') = Some g"
proof (induction a)
  case Nil
  then have "group_then_close (g @ js ''</div>'') = Some g" by (simp add: group_then_close_iff)
  then show ?case by simp
next
  case (Cons c a)
  then show ?case by simp
qed

lemma exec_pattern_iff: "exec_pattern s = Some g \<longleftrightarrow> (\<exists>a. decomposes s a g)"
proof
  assume "exec_pattern s = Some g"
  then have t: "take 4 s = js ''<div''" and l: "lazy_dots (drop 4 s) = Some g"
    by (auto simp: exec_pattern_def split: if_splits)
  from lazy_dots_sound [OF l] obtain a where
    a: "drop 4 s = a @ 0x3E # g @ js ''</div>''" "0x3E \<notin> set a" "list_all dot a" "g \<noteq> []"
       "list_all dot g"
    by blast
  have "s = take 4 s @ drop 4 s" by simp
  with t a have "decomposes s a g" unfolding decomposes_def by metis
  then show "\<exists>a. decomposes s a g" ..
next
  assume "\<exists>a. decomposes s a g"
  then obtain a where
    a: "s = js ''<div'' @ a @ 0x3E # g @ js ''</div>''" "0x3E \<notin> set a" "list_all dot a" "g \<noteq> []"
       "list_all dot g"
    unfolding decomposes_def by blast
  have "take 4 s = js ''<div''" "drop 4 s = a @ 0x3E # g @ js ''</div>''"
    using a(1) by (simp_all add: open_tag)
  with a show "exec_pattern s = Some g" by (simp add: exec_pattern_def lazy_dots_complete)
qed

lemma decomposes_shape:
  assumes "decomposes s a g"
  shows "wrapper_shape s" and "inner s = g" and "between_tags s = a @ 0x3E # g"
proof -
  from assms have s: "s = js ''<div'' @ a @ 0x3E # g @ js ''</div>''" and a: "0x3E \<notin> set a"
    and da: "list_all dot a" and g: "g \<noteq> []" and dg: "list_all dot g"
    by (simp_all add: decomposes_def)
  show b: "between_tags s = a @ 0x3E # g"
    by (simp add: between_tags_def s open_tag close_tag)
  have "dropWhile (\<lambda>c. c \<noteq> 0x3E) (a @ 0x3E # g) = 0x3E # g"
    using a by (auto simp: dropWhile_append3)
  then show "inner s = g" by (simp add: inner_def b)
  have "butlast (a @ 0x3E # g) = a @ 0x3E # butlast g" using g by (simp add: butlast_append)
  then show "wrapper_shape s"
    unfolding wrapper_shape_def b using da dg by (simp add: s open_tag close_tag dot_gt)
qed

lemma shape_decomposes:
  assumes "wrapper_shape s"
  shows "\<exists>a. decomposes s a (inner s)"
proof -
  let ?m = "between_tags s"
  from assms have t: "take 4 s = js ''<div''" and d: "drop (length s - 6) s = js ''</div>''"
    and dm: "list_all dot ?m" and gt: "0x3E \<in> set (butlast ?m)"
    by (simp_all add: wrapper_shape_def)
  from gt have ne: "?m \<noteq> []" by auto
  then have len: "10 < length s" by (auto simp: between_tags_def)
  from split_list_first [OF gt] obtain a r where ar: "butlast ?m = a @ 0x3E # r" "0x3E \<notin> set a"
    by blast
  have m: "?m = a @ 0x3E # r @ [last ?m]"
    using append_butlast_last_id [OF ne] ar(1) by simp
  have "dropWhile (\<lambda>c. c \<noteq> 0x3E) ?m = 0x3E # r @ [last ?m]"
    by (subst m) (use ar(2) in \<open>auto simp: dropWhile_append3\<close>)
  then have i: "inner s = r @ [last ?m]" by (simp add: inner_def)
  have "s = take 4 s @ take (length s - 10) (drop 4 s) @ drop (length s - 6) s"
  proof -
    have "drop (length s - 10) (drop 4 s) = drop (length s - 6) s"
      using len by (simp add: add.commute)
    then have "drop 4 s = take (length s - 10) (drop 4 s) @ drop (length s - 6) s"
      by (metis append_take_drop_id)
    then show ?thesis by (metis append_take_drop_id)
  qed
  then have "s = js ''<div'' @ ?m @ js ''</div>''" by (simp add: t d between_tags_def)
  also have "js ''<div'' @ ?m @ js ''</div>'' = js ''<div'' @ a @ 0x3E # inner s @ js ''</div>''"
    by (subst m) (simp add: i)
  finally have "s = js ''<div'' @ a @ 0x3E # inner s @ js ''</div>''" .
  moreover from dm m i have "list_all dot a" "list_all dot (inner s)"
    by (metis list_all_append list.pred_inject(2))+
  moreover from i have "inner s \<noteq> []" by simp
  ultimately have "decomposes s a (inner s)" using ar(2) by (simp add: decomposes_def)
  then show ?thesis ..
qed

lemma wrapper_shape_iff: "wrapper_shape s \<longleftrightarrow> (\<exists>a g. decomposes s a g)"
  using shape_decomposes decomposes_shape(1) by blast

lemma exec_pattern_shape: "exec_pattern s = (if wrapper_shape s then Some (inner s) else None)"
proof (cases "wrapper_shape s")
  case True
  with shape_decomposes show ?thesis by (simp add: exec_pattern_iff)
next
  case False
  have "exec_pattern s = None"
  proof (cases "exec_pattern s")
    case (Some g)
    then obtain a where "decomposes s a g" by (auto simp: exec_pattern_iff)
    with decomposes_shape(1) False show ?thesis by blast
  qed simp
  with False show ?thesis by simp
qed

lemma stripOuterDiv_shape: "stripOuterDiv s = (if wrapper_shape s then inner s else s)"
  by (simp add: stripOuterDiv_def exec_pattern_shape)

lemma inner_shorter:
  assumes "wrapper_shape s"
  shows "length (inner s) + 11 \<le> length s"
proof -
  from assms obtain a where "decomposes s a (inner s)" using shape_decomposes by blast
  then have "s = js ''<div'' @ a @ 0x3E # inner s @ js ''</div>''" by (simp add: decomposes_def)
  then have "length s = length (js ''<div'' @ a @ 0x3E # inner s @ js ''</div>'')" by simp
  then show ?thesis by (simp add: open_tag close_tag)
qed

subsection \<open>\<open>stripOuterDiv\<close> on strings that are not one wrapper\<close>

text \<open>
  C2, as stated, fails: two sibling \<open>div\<close> elements written one after the other on a
  line are not a single wrapper element, and yet the expression matches them, from the
  first opening tag to the last closing tag, and \<open>stripOuterDiv\<close> returns what lies
  between.
\<close>

theorem stripOuterDiv_siblings_counterexample:
  "stripOuterDiv (js ''<div>a</div><div>b</div>'') = js ''a</div><div>b'' \<and>
   stripOuterDiv (js ''<div>a</div><div>b</div>'') \<noteq> js ''<div>a</div><div>b</div>''"
  by (simp add: stripOuterDiv_def exec_pattern_def group_then_close_def js_def dot_def
      isLineTerminator_def)

text \<open>
  C2, amended. \<open>stripOuterDiv\<close> returns its input unchanged for every string that does
  not have the shape \<open><div\<close> \<open>a\<close> \<open>>\<close> \<open>g\<close> \<open></div>\<close> with \<open>g\<close> non-empty and no line
  terminator in \<open>a\<close> or \<open>g\<close>: a string with no wrapper at all, or sibling wrappers on
  separate lines.
\<close>

theorem stripOuterDiv_unchanged: "\<not> wrapper_shape s \<Longrightarrow> stripOuterDiv s = s"
  by (simp add: stripOuterDiv_shape)

theorem stripOuterDiv_unchanged_witness:
  "\<not> wrapper_shape (js ''<div>a</div>'' @ [0x000A] @ js ''<div>b</div>'') \<and>
   stripOuterDiv (js ''<div>a</div>'' @ [0x000A] @ js ''<div>b</div>'') =
     js ''<div>a</div>'' @ [0x000A] @ js ''<div>b</div>''"
proof -
  have h: "\<not> wrapper_shape (js ''<div>a</div>'' @ [0x000A] @ js ''<div>b</div>'')"
    by (simp add: wrapper_shape_def between_tags_def js_def dot_def isLineTerminator_def)
  from stripOuterDiv_unchanged [OF h] h show ?thesis by simp
qed

subsection \<open>Applying \<open>stripOuterDiv\<close> twice\<close>

text \<open>
  C4, as stated, fails: a wrapper inside a wrapper loses one layer at each application,
  so the second application changes the result of the first.
\<close>

theorem stripOuterDiv_nested_counterexample:
  "stripOuterDiv (js ''<div><div>a</div></div>'') = js ''<div>a</div>'' \<and>
   stripOuterDiv (stripOuterDiv (js ''<div><div>a</div></div>'')) = js ''a'' \<and>
   stripOuterDiv (stripOuterDiv (js ''<div><div>a</div></div>'')) \<noteq>
     stripOuterDiv (js ''<div><div>a</div></div>'')"
  by (simp add: stripOuterDiv_def exec_pattern_def group_then_close_def js_def dot_def
      isLineTerminator_def)

text \<open>
  C4, amended. Applying \<open>stripOuterDiv\<close> twice equals applying it once exactly for the
  strings whose once-stripped result does not again have the wrapper shape; on the
  others each application removes one more layer.
\<close>

theorem stripOuterDiv_twice:
  "stripOuterDiv (stripOuterDiv s) = stripOuterDiv s \<longleftrightarrow> \<not> wrapper_shape (stripOuterDiv s)"
proof (cases "wrapper_shape (stripOuterDiv s)")
  case True
  from inner_shorter [OF True] have "inner (stripOuterDiv s) \<noteq> stripOuterDiv s" by auto
  with True show ?thesis by (simp add: stripOuterDiv_shape [of "stripOuterDiv s"])
next
  case False
  then show ?thesis by (simp add: stripOuterDiv_shape [of "stripOuterDiv s"])
qed

theorem stripOuterDiv_twice_witness:
  "\<not> wrapper_shape (stripOuterDiv (js ''<div class=x>Doe 2020</div>'')) \<and>
   stripOuterDiv (stripOuterDiv (js ''<div class=x>Doe 2020</div>'')) =
     stripOuterDiv (js ''<div class=x>Doe 2020</div>'')"
proof -
  have e: "stripOuterDiv (js ''<div class=x>Doe 2020</div>'') = js ''Doe 2020''"
    by (simp add: stripOuterDiv_def exec_pattern_def group_then_close_def js_def dot_def
        isLineTerminator_def)
  have h: "\<not> wrapper_shape (stripOuterDiv (js ''<div class=x>Doe 2020</div>''))"
    unfolding e by (simp add: wrapper_shape_def js_def)
  from stripOuterDiv_twice [of "js ''<div class=x>Doe 2020</div>''"] h show ?thesis by simp
qed

subsection \<open>The argument loop, one round at a time\<close>

lemma parse_loop_end: "length argv \<le> i \<Longrightarrow> parse_loop argv i opts args = Inr (opts, args)"
  by (simp add: parse_loop.simps)

lemma parse_loop_locale:
  "i < length argv \<Longrightarrow> argv ! i = js ''--locale'' \<or> argv ! i = js ''-l'' \<Longrightarrow>
     parse_loop argv i opts args =
       parse_loop argv (i + 2) (opts\<lparr>locale' := at argv (i + 1)\<rparr>) args"
  by (subst parse_loop.simps) (auto simp: startsWith_def js_def)

lemma parse_loop_localeDir:
  "i < length argv \<Longrightarrow> argv ! i = js ''--locale-dir'' \<or> argv ! i = js ''-L'' \<Longrightarrow>
     parse_loop argv i opts args =
       parse_loop argv (i + 2) (opts\<lparr>localeDir := at argv (i + 1)\<rparr>) args"
  by (subst parse_loop.simps) (auto simp: startsWith_def js_def)

lemma parse_loop_bibliography:
  "i < length argv \<Longrightarrow> argv ! i = js ''--bibliography'' \<or> argv ! i = js ''-b'' \<Longrightarrow>
     parse_loop argv i opts args = parse_loop argv (i + 1) (opts\<lparr>bibliography := True\<rparr>) args"
  by (subst parse_loop.simps) (auto simp: startsWith_def js_def)

lemma parse_loop_verbose:
  "i < length argv \<Longrightarrow> argv ! i = js ''--verbose'' \<or> argv ! i = js ''-v'' \<Longrightarrow>
     parse_loop argv i opts args = parse_loop argv (i + 1) (opts\<lparr>verbose := True\<rparr>) args"
  by (subst parse_loop.simps) (auto simp: startsWith_def js_def)

lemma parse_loop_unknown_flag:
  "i < length argv \<Longrightarrow> startsWith (argv ! i) (js ''-'') \<Longrightarrow> \<not> known_flag (argv ! i) \<Longrightarrow>
     parse_loop argv i opts args = Inl (showHelp (JString (js ''unknown option: '' @ argv ! i)))"
  by (subst parse_loop.simps) (auto simp: known_flag_def takes_value_def)

lemma parse_loop_positional:
  "i < length argv \<Longrightarrow> \<not> startsWith (argv ! i) (js ''-'') \<Longrightarrow>
     parse_loop argv i opts args = parse_loop argv (i + 1) opts (args @ [argv ! i])"
  by (subst parse_loop.simps) simp

lemma known_flag_cases:
  assumes "known_flag s"
  obtains "s = js ''--locale'' \<or> s = js ''-l''" | "s = js ''--locale-dir'' \<or> s = js ''-L''"
    | "s = js ''--bibliography'' \<or> s = js ''-b''" | "s = js ''--verbose'' \<or> s = js ''-v''"
  using assms by (auto simp: known_flag_def takes_value_def)

text \<open>The roles of the tokens from index \<open>i\<close> on, in terms of those after one round.\<close>

lemma drop_roles:
  assumes "i < length argv"
  shows "startsWith (argv ! i) (js ''-'') \<Longrightarrow> takes_value (argv ! i) \<Longrightarrow>
           flag_tokens (drop i argv) = argv ! i # flag_tokens (drop (i + 2) argv) \<and>
           positionals (drop i argv) = positionals (drop (i + 2) argv)"
    and "startsWith (argv ! i) (js ''-'') \<Longrightarrow> \<not> takes_value (argv ! i) \<Longrightarrow>
           flag_tokens (drop i argv) = argv ! i # flag_tokens (drop (i + 1) argv) \<and>
           positionals (drop i argv) = positionals (drop (i + 1) argv)"
    and "\<not> startsWith (argv ! i) (js ''-'') \<Longrightarrow>
           flag_tokens (drop i argv) = flag_tokens (drop (i + 1) argv) \<and>
           positionals (drop i argv) = argv ! i # positionals (drop (i + 1) argv)"
proof -
  from assms have d: "drop i argv = argv ! i # drop (Suc i) argv" by (simp add: Cons_nth_drop_Suc)
  have d2: "drop 1 (drop (Suc i) argv) = drop (i + 2) argv" by simp
  show "startsWith (argv ! i) (js ''-'') \<Longrightarrow> takes_value (argv ! i) \<Longrightarrow>
           flag_tokens (drop i argv) = argv ! i # flag_tokens (drop (i + 2) argv) \<and>
           positionals (drop i argv) = positionals (drop (i + 2) argv)"
    by (simp add: d d2)
  show "startsWith (argv ! i) (js ''-'') \<Longrightarrow> \<not> takes_value (argv ! i) \<Longrightarrow>
           flag_tokens (drop i argv) = argv ! i # flag_tokens (drop (i + 1) argv) \<and>
           positionals (drop i argv) = positionals (drop (i + 1) argv)"
    by (simp add: d)
  show "\<not> startsWith (argv ! i) (js ''-'') \<Longrightarrow>
           flag_tokens (drop i argv) = flag_tokens (drop (i + 1) argv) \<and>
           positionals (drop i argv) = argv ! i # positionals (drop (i + 1) argv)"
    by (simp add: d)
qed

text \<open>
  The loop against the roles: it exits on the first flag it does not know, and
  otherwise returns the positional tokens, in order, after those it already had.
\<close>

lemma parse_loop_roles:
  "case find (\<lambda>s. \<not> known_flag s) (flag_tokens (drop i argv)) of
     Some s \<Rightarrow> parse_loop argv i opts args = Inl (showHelp (JString (js ''unknown option: '' @ s)))
   | None \<Rightarrow> \<exists>opts'. parse_loop argv i opts args = Inr (opts', args @ positionals (drop i argv))"
proof (induction "length argv - i" arbitrary: i opts args rule: less_induct)
  case less
  show ?case
  proof (cases "i < length argv")
    case False
    then show ?thesis by (simp add: parse_loop_end)
  next
    case True
    then have m1: "length argv - (i + 1) < length argv - i"
      and m2: "length argv - (i + 2) < length argv - i"
      by auto
    show ?thesis
    proof (cases "startsWith (argv ! i) (js ''-'')")
      case False
      show ?thesis
        using less [OF m1, of opts "args @ [argv ! i]"] drop_roles(3) [OF True False]
        by (simp add: parse_loop_positional [OF True False] split: option.splits)
    next
      case dashed: True
      show ?thesis
      proof (cases "known_flag (argv ! i)")
        case False
        with drop_roles [OF True] dashed show ?thesis
          by (cases "takes_value (argv ! i)")
            (simp_all add: parse_loop_unknown_flag [OF True dashed False] split: option.splits)
      next
        case known: True
        then show ?thesis
        proof (cases rule: known_flag_cases)
          case 1
          then have "takes_value (argv ! i)" by (auto simp: takes_value_def)
          from drop_roles(1) [OF True dashed this] known
            less [OF m2, of "opts\<lparr>locale' := at argv (i + 1)\<rparr>" args]
          show ?thesis by (simp add: parse_loop_locale [OF True 1] split: option.splits)
        next
          case 2
          then have "takes_value (argv ! i)" by (auto simp: takes_value_def)
          from drop_roles(1) [OF True dashed this] known
            less [OF m2, of "opts\<lparr>localeDir := at argv (i + 1)\<rparr>" args]
          show ?thesis by (simp add: parse_loop_localeDir [OF True 2] split: option.splits)
        next
          case 3
          then have "\<not> takes_value (argv ! i)" by (auto simp: takes_value_def js_def)
          from drop_roles(2) [OF True dashed this] known
            less [OF m1, of "opts\<lparr>bibliography := True\<rparr>" args]
          show ?thesis by (simp add: parse_loop_bibliography [OF True 3] split: option.splits)
        next
          case 4
          then have "\<not> takes_value (argv ! i)" by (auto simp: takes_value_def js_def)
          from drop_roles(2) [OF True dashed this] known
            less [OF m1, of "opts\<lparr>verbose := True\<rparr>" args]
          show ?thesis by (simp add: parse_loop_verbose [OF True 4] split: option.splits)
        qed
      qed
    qed
  qed
qed

lemma help_exit: "showHelp JUndefined = \<lparr>console = [usage], status = 0\<rparr>"
  by (simp add: showHelp_def)

lemma error_exit:
  "showHelp (JString (js ''unknown option: '' @ s)) =
     \<lparr>console = [js ''error: unknown option: '' @ s, usage], status = 1\<rparr>"
  by (simp add: showHelp_def js_def)

lemma count_exit:
  "showHelp (JString (js ''script takes 2 arguments'')) =
     \<lparr>console = [js ''error: script takes 2 arguments'', usage], status = 1\<rparr>"
  by (simp add: showHelp_def js_def)

subsection \<open>Help and usage errors\<close>

text \<open>
  C8. \<open>parseArgs\<close> ends the process with the usage text and status 0 whenever \<open>-h\<close> or
  \<open>--help\<close> is anywhere in the argument list, or the list is empty, whatever the other
  arguments are. Without a help flag it ends the process with an error line, the usage
  text and status 1 when a flag is not one it knows (the first such flag is named in
  the error line), and when all flags are known and more than two tokens are
  positional.
\<close>

theorem parseArgs_exits:
  "(list_ex isHelp argv \<or> argv = [] \<longrightarrow> parseArgs argv = Inl \<lparr>console = [usage], status = 0\<rparr>) \<and>
   (\<not> list_ex isHelp argv \<and> find (\<lambda>s. \<not> known_flag s) (flag_tokens argv) = Some s \<longrightarrow>
      parseArgs argv =
        Inl \<lparr>console = [js ''error: unknown option: '' @ s, usage], status = 1\<rparr>) \<and>
   (\<not> list_ex isHelp argv \<and> list_all known_flag (flag_tokens argv) \<and>
    2 < length (positionals argv) \<longrightarrow>
      parseArgs argv =
        Inl \<lparr>console = [js ''error: script takes 2 arguments'', usage], status = 1\<rparr>)"
proof (intro conjI impI)
  assume "list_ex isHelp argv \<or> argv = []"
  then show "parseArgs argv = Inl \<lparr>console = [usage], status = 0\<rparr>"
    by (auto simp: parseArgs_def help_exit)
next
  assume a: "\<not> list_ex isHelp argv \<and> find (\<lambda>s. \<not> known_flag s) (flag_tokens argv) = Some s"
  then have "argv \<noteq> []" by auto
  moreover from a
  have "parse_loop argv 0 initial_opts [] = Inl (showHelp (JString (js ''unknown option: '' @ s)))"
    using parse_loop_roles [of argv 0 initial_opts "[]"] by simp
  ultimately show "parseArgs argv =
      Inl \<lparr>console = [js ''error: unknown option: '' @ s, usage], status = 1\<rparr>"
    using a by (simp add: parseArgs_def error_exit)
next
  assume a: "\<not> list_ex isHelp argv \<and> list_all known_flag (flag_tokens argv) \<and>
    2 < length (positionals argv)"
  then have ne: "argv \<noteq> []" by auto
  from a have "find (\<lambda>s. \<not> known_flag s) (flag_tokens argv) = None"
    by (simp add: find_None_iff list_all_iff)
  then obtain opts' where "parse_loop argv 0 initial_opts [] = Inr (opts', positionals argv)"
    using parse_loop_roles [of argv 0 initial_opts "[]"] by auto
  with a ne show "parseArgs argv =
      Inl \<lparr>console = [js ''error: script takes 2 arguments'', usage], status = 1\<rparr>"
    by (simp add: parseArgs_def count_exit)
qed

theorem parseArgs_exits_witness:
  "parseArgs [js ''-h''] = Inl \<lparr>console = [usage], status = 0\<rparr> \<and>
   parseArgs [] = Inl \<lparr>console = [usage], status = 0\<rparr> \<and>
   parseArgs [js ''-h'', js ''--bogus''] = Inl \<lparr>console = [usage], status = 0\<rparr> \<and>
   parseArgs [js ''--bogus'', js ''a.csl'', js ''b.json''] =
     Inl \<lparr>console = [js ''error: unknown option: '' @ js ''--bogus'', usage], status = 1\<rparr> \<and>
   parseArgs [js ''a.csl'', js ''b.json'', js ''c.json''] =
     Inl \<lparr>console = [js ''error: script takes 2 arguments'', usage], status = 1\<rparr>"
proof -
  have h1: "list_ex isHelp [js ''-h''] \<or> [js ''-h''] = []"
    by (simp add: isHelp_def)
  have h2: "list_ex isHelp [js ''-h'', js ''--bogus''] \<or> [js ''-h'', js ''--bogus''] = []"
    by (simp add: isHelp_def)
  have h3: "\<not> list_ex isHelp [js ''--bogus'', js ''a.csl'', js ''b.json''] \<and>
      find (\<lambda>s. \<not> known_flag s) (flag_tokens [js ''--bogus'', js ''a.csl'', js ''b.json'']) =
        Some (js ''--bogus'')"
    by (simp add: isHelp_def known_flag_def takes_value_def startsWith_def js_def)
  have h4: "\<not> list_ex isHelp [js ''a.csl'', js ''b.json'', js ''c.json''] \<and>
      list_all known_flag (flag_tokens [js ''a.csl'', js ''b.json'', js ''c.json'']) \<and>
      2 < length (positionals [js ''a.csl'', js ''b.json'', js ''c.json''])"
    by (simp add: isHelp_def startsWith_def js_def)
  note r1 = parseArgs_exits [of "[js ''-h'']", THEN conjunct1, rule_format, OF h1]
  note r2 = parseArgs_exits [of "[]", THEN conjunct1, rule_format, OF disjI2, OF refl]
  note r3 = parseArgs_exits [of "[js ''-h'', js ''--bogus'']", THEN conjunct1, rule_format, OF h2]
  note r4 = parseArgs_exits [of "[js ''--bogus'', js ''a.csl'', js ''b.json'']" "js ''--bogus''",
      THEN conjunct2, THEN conjunct1, rule_format, OF h3]
  note r5 = parseArgs_exits [of "[js ''a.csl'', js ''b.json'', js ''c.json'']",
      THEN conjunct2, THEN conjunct2, rule_format, OF h4]
  from r1 r2 r3 r4 r5 show ?thesis by (intro conjI)
qed

subsection \<open>The flags that take a value\<close>

text \<open>
  C10, as stated, fails: the token after \<open>-l\<close> is not always taken as the value. The
  scan for a help flag runs over the whole list before the loop, so \<open>-h\<close> after \<open>-l\<close> is
  read as the help flag and the process exits with the usage text and status 0.
\<close>

theorem help_after_locale_counterexample:
  "parseArgs [js ''-l'', js ''-h'', js ''a.csl'', js ''b.json''] =
     Inl \<lparr>console = [usage], status = 0\<rparr>"
  by (simp add: parseArgs_def isHelp_def showHelp_def)

text \<open>
  C10, amended. When the loop is at \<open>-l\<close> or \<open>--locale\<close> (at \<open>-L\<close> or \<open>--locale-dir\<close>),
  it stores \<open>argv[i+1]\<close> as the locale (the locale directory) and goes on two tokens
  later, whatever that next token is: the token is the value and is never looked at as
  a flag. When the flag is the last token the stored value is \<open>undefined\<close>, the loop ends
  without an error, and for \<open>-l\<close> the adapter then uses \<open>en\<close>, unforced. The loop runs
  exactly when no token of the list is \<open>-h\<close> or \<open>--help\<close>; a help flag exits first, also
  where it follows \<open>-l\<close> or \<open>-L\<close>.
\<close>

theorem value_flag_consumes_next:
  assumes "i < length argv"
  shows
    "(argv ! i = js ''--locale'' \<or> argv ! i = js ''-l'' \<longrightarrow>
        parse_loop argv i opts args =
          parse_loop argv (i + 2) (opts\<lparr>locale' := at argv (i + 1)\<rparr>) args \<and>
        (i + 1 < length argv \<longrightarrow> at argv (i + 1) = JString (argv ! (i + 1))) \<and>
        (i + 1 = length argv \<longrightarrow>
           parse_loop argv i opts args = Inr (opts\<lparr>locale' := JUndefined\<rparr>, args) \<and>
           effective_locale (opts\<lparr>locale' := JUndefined\<rparr>) = (JString (js ''en''), False))) \<and>
     (argv ! i = js ''--locale-dir'' \<or> argv ! i = js ''-L'' \<longrightarrow>
        parse_loop argv i opts args =
          parse_loop argv (i + 2) (opts\<lparr>localeDir := at argv (i + 1)\<rparr>) args \<and>
        (i + 1 < length argv \<longrightarrow> at argv (i + 1) = JString (argv ! (i + 1))) \<and>
        (i + 1 = length argv \<longrightarrow>
           parse_loop argv i opts args = Inr (opts\<lparr>localeDir := JUndefined\<rparr>, args))) \<and>
     (\<not> list_ex isHelp argv \<longrightarrow>
        parseArgs argv =
          (case parse_loop argv 0 initial_opts [] of
             Inl e \<Rightarrow> Inl e
           | Inr (opts', args') \<Rightarrow>
               if length args' > 2
               then Inl (showHelp (JString (js ''script takes 2 arguments'')))
               else Inr (opts'\<lparr>style := if length args' > 0 then JString (args' ! 0)
                                          else style opts',
                               csl := if length args' > 1 then JString (args' ! 1)
                                      else csl opts'\<rparr>)))"
proof (intro conjI impI)
  assume l: "argv ! i = js ''--locale'' \<or> argv ! i = js ''-l''"
  show s: "parse_loop argv i opts args =
      parse_loop argv (i + 2) (opts\<lparr>locale' := at argv (i + 1)\<rparr>) args"
    by (rule parse_loop_locale [OF assms l])
  show "at argv (i + 1) = JString (argv ! (i + 1))" if "i + 1 < length argv"
    using that by (simp add: at_def)
  show "parse_loop argv i opts args = Inr (opts\<lparr>locale' := JUndefined\<rparr>, args)"
    if "i + 1 = length argv"
    using that by (simp add: s at_def parse_loop_end)
  show "effective_locale (opts\<lparr>locale' := JUndefined\<rparr>) = (JString (js ''en''), False)"
    by (simp add: effective_locale_def)
next
  assume l: "argv ! i = js ''--locale-dir'' \<or> argv ! i = js ''-L''"
  show s: "parse_loop argv i opts args =
      parse_loop argv (i + 2) (opts\<lparr>localeDir := at argv (i + 1)\<rparr>) args"
    by (rule parse_loop_localeDir [OF assms l])
  show "at argv (i + 1) = JString (argv ! (i + 1))" if "i + 1 < length argv"
    using that by (simp add: at_def)
  show "parse_loop argv i opts args = Inr (opts\<lparr>localeDir := JUndefined\<rparr>, args)"
    if "i + 1 = length argv"
    using that by (simp add: s at_def parse_loop_end)
next
  assume "\<not> list_ex isHelp argv"
  moreover from assms have "argv \<noteq> []" by auto
  ultimately show "parseArgs argv =
          (case parse_loop argv 0 initial_opts [] of
             Inl e \<Rightarrow> Inl e
           | Inr (opts', args') \<Rightarrow>
               if length args' > 2
               then Inl (showHelp (JString (js ''script takes 2 arguments'')))
               else Inr (opts'\<lparr>style := if length args' > 0 then JString (args' ! 0)
                                          else style opts',
                               csl := if length args' > 1 then JString (args' ! 1)
                                      else csl opts'\<rparr>))"
    by (simp add: parseArgs_def)
qed

theorem value_flag_consumes_next_witness:
  "parse_loop [js ''-l'', js ''--bogus'', js ''a.csl''] 0 initial_opts [] =
     parse_loop [js ''-l'', js ''--bogus'', js ''a.csl''] 2
       (initial_opts\<lparr>locale' := JString (js ''--bogus'')\<rparr>) [] \<and>
   parseArgs [js ''-l'', js ''--bogus'', js ''a.csl''] =
     Inr \<lparr>locale' = JString (js ''--bogus''), localeDir = JString (js ''./locales''),
          style = JString (js ''a.csl''), csl = JNull, bibliography = False, verbose = False\<rparr> \<and>
   parse_loop [js ''a.csl'', js ''-l''] 1 initial_opts [js ''a.csl''] =
     Inr (initial_opts\<lparr>locale' := JUndefined\<rparr>, [js ''a.csl'']) \<and>
   effective_locale (initial_opts\<lparr>locale' := JUndefined\<rparr>) = (JString (js ''en''), False) \<and>
   parse_loop [js ''a.csl'', js ''-L''] 1 initial_opts [js ''a.csl''] =
     Inr (initial_opts\<lparr>localeDir := JUndefined\<rparr>, [js ''a.csl''])"
proof -
  let ?a = "[js ''-l'', js ''--bogus'', js ''a.csl'']"
  let ?b = "[js ''a.csl'', js ''-l'']"
  let ?c = "[js ''a.csl'', js ''-L'']"
  have a: "0 < length ?a" "?a ! 0 = js ''--locale'' \<or> ?a ! 0 = js ''-l''" "0 + 1 < length ?a"
    by simp_all
  have nh: "\<not> list_ex isHelp ?a" by (simp add: isHelp_def js_def)
  have b: "1 < length ?b" "?b ! 1 = js ''--locale'' \<or> ?b ! 1 = js ''-l''" "1 + 1 = length ?b"
    by simp_all
  have c: "1 < length ?c" "?c ! 1 = js ''--locale-dir'' \<or> ?c ! 1 = js ''-L''" "1 + 1 = length ?c"
    by simp_all
  note ta = value_flag_consumes_next [OF a(1), of initial_opts "[]"]
  note tb = value_flag_consumes_next [OF b(1), of initial_opts "[js ''a.csl'']"]
  note tc = value_flag_consumes_next [OF c(1), of initial_opts "[js ''a.csl'']"]
  note sa = ta [THEN conjunct1, rule_format, OF a(2)]
  from sa [THEN conjunct1] sa [THEN conjunct2, THEN conjunct1, rule_format, OF a(3)]
  have 1: "parse_loop ?a 0 initial_opts [] =
      parse_loop ?a 2 (initial_opts\<lparr>locale' := JString (js ''--bogus'')\<rparr>) []"
    by (simp add: numeral_2_eq_2)
  have "parse_loop ?a 2 (initial_opts\<lparr>locale' := JString (js ''--bogus'')\<rparr>) [] =
      Inr (initial_opts\<lparr>locale' := JString (js ''--bogus'')\<rparr>, [js ''a.csl''])"
    by (simp add: parse_loop.simps startsWith_def js_def)
  with 1 ta [THEN conjunct2, THEN conjunct2, rule_format, OF nh] have 2: "parseArgs ?a =
     Inr \<lparr>locale' = JString (js ''--bogus''), localeDir = JString (js ''./locales''),
          style = JString (js ''a.csl''), csl = JNull, bibliography = False, verbose = False\<rparr>"
    by (simp add: initial_opts_def)
  note sb = tb [THEN conjunct1, rule_format, OF b(2), THEN conjunct2, THEN conjunct2,
      rule_format, OF b(3)]
  note 3 = sb [THEN conjunct1] and 4 = sb [THEN conjunct2]
  note 5 = tc [THEN conjunct2, THEN conjunct1, rule_format, OF c(2), THEN conjunct2,
      THEN conjunct2, rule_format, OF c(3)]
  from 1 2 3 4 5 show ?thesis by (intro conjI)
qed

subsection \<open>The locale given to the engine\<close>

lemma Citer_Inr:
  "Citer fm G opts = Inr this \<Longrightarrow>
     CSL_Engine G (retrieveItem (this_item this)) (retrieveLocale fm opts) (this_style this)
       (fst (effective_locale opts)) (snd (effective_locale opts)) = Inr (this_citer this)"
  by (auto simp: Citer_def and_then_def split: sum.splits)

text \<open>
  C7, as stated, fails: the test is \<open>if (opts.locale)\<close>, and the empty string is falsy.
  With \<open>-l ''\<close> the locale is set, to the empty string, and the engine is nevertheless
  given \<open>en\<close>, unforced.
\<close>

theorem empty_locale_counterexample:
  "parseArgs [js ''-l'', js '''', js ''a.csl'', js ''b.json''] =
     Inr \<lparr>locale' = JString [], localeDir = JString (js ''./locales''),
          style = JString (js ''a.csl''), csl = JString (js ''b.json''), bibliography = False,
          verbose = False\<rparr> \<and>
   effective_locale
     \<lparr>locale' = JString [], localeDir = JString (js ''./locales''),
      style = JString (js ''a.csl''), csl = JString (js ''b.json''), bibliography = False,
      verbose = False\<rparr> = (JString (js ''en''), False)"
  by (simp add: parseArgs_def isHelp_def parse_loop.simps startsWith_def at_def initial_opts_def
      effective_locale_def js_def)

text \<open>
  C7, amended. The locale and the force flag given to the engine are the configured
  locale and \<open>true\<close> whenever \<open>opts.locale\<close> is a non-empty string, and \<open>en\<close> and \<open>false\<close>
  whenever it is \<open>null\<close> (not given), \<open>undefined\<close> or the empty string; a \<open>Citer\<close> that
  is constructed holds the engine that \<open>CSL.Engine\<close> returned for these two values.
\<close>

theorem Citer_locale:
  "(locale' opts = JString s \<and> s \<noteq> [] \<longrightarrow> effective_locale opts = (JString s, True)) \<and>
   (locale' opts = JNull \<or> locale' opts = JUndefined \<or> locale' opts = JString [] \<longrightarrow>
      effective_locale opts = (JString (js ''en''), False)) \<and>
   (Citer fm G opts = Inr this \<longrightarrow>
      CSL_Engine G (retrieveItem (this_item this)) (retrieveLocale fm opts) (this_style this)
        (fst (effective_locale opts)) (snd (effective_locale opts)) = Inr (this_citer this))"
  using Citer_Inr [of fm G opts this] by (auto simp: effective_locale_def)

theorem Citer_locale_witness:
  "parseArgs [js ''-l'', js ''fr-FR'', js ''a.csl'', js ''b.json''] =
     Inr (initial_opts\<lparr>locale' := JString (js ''fr-FR''), style := JString (js ''a.csl''),
                       csl := JString (js ''b.json'')\<rparr>) \<and>
   effective_locale (initial_opts\<lparr>locale' := JString (js ''fr-FR''), style := JString (js ''a.csl''),
                       csl := JString (js ''b.json'')\<rparr>) = (JString (js ''fr-FR''), True) \<and>
   Citer (no_files None) sample_globals
      (initial_opts\<lparr>locale' := JString (js ''fr-FR''), style := JString (js ''a.csl''),
                       csl := JString (js ''b.json'')\<rparr>) =
     Inr \<lparr>this_opts = initial_opts\<lparr>locale' := JString (js ''fr-FR''),
                       style := JString (js ''a.csl''), csl := JString (js ''b.json'')\<rparr>,
          this_item = (), this_style = JUndefined, this_id = js ''r1'',
          this_citer = (JString (js ''fr-FR''), True)\<rparr> \<and>
   CSL_Engine sample_globals (retrieveItem ())
     (retrieveLocale (no_files None)
        (initial_opts\<lparr>locale' := JString (js ''fr-FR''), style := JString (js ''a.csl''),
                       csl := JString (js ''b.json'')\<rparr>))
     JUndefined (JString (js ''fr-FR'')) True = Inr (JString (js ''fr-FR''), True) \<and>
   effective_locale initial_opts = (JString (js ''en''), False)"
proof -
  let ?o = "initial_opts\<lparr>locale' := JString (js ''fr-FR''), style := JString (js ''a.csl''),
                       csl := JString (js ''b.json'')\<rparr>"
  let ?c = "\<lparr>this_opts = ?o, this_item = (), this_style = JUndefined, this_id = js ''r1'',
           this_citer = (JString (js ''fr-FR''), True)\<rparr>"
  have p: "parseArgs [js ''-l'', js ''fr-FR'', js ''a.csl'', js ''b.json''] = Inr ?o"
    by (simp add: parseArgs_def isHelp_def parse_loop.simps startsWith_def at_def initial_opts_def
        js_def)
  have l: "locale' ?o = JString (js ''fr-FR'') \<and> js ''fr-FR'' \<noteq> []"
    by (simp add: js_def)
  have n: "locale' initial_opts = JNull \<or> locale' initial_opts = JUndefined \<or>
      locale' initial_opts = JString []"
    by (simp add: initial_opts_def)
  note e = Citer_locale [of ?o "js ''fr-FR''", THEN conjunct1, rule_format, OF l]
  have r: "Citer (no_files None) sample_globals ?o = Inr ?c"
    by (simp add: Citer_def and_then_def readFile_def no_files_def unwrap_def sample_globals_def e)
  from Citer_locale [of ?o _ "no_files None" sample_globals ?c, THEN conjunct2, THEN conjunct2,
      rule_format, OF r]
  have k: "CSL_Engine sample_globals (retrieveItem ()) (retrieveLocale (no_files None) ?o)
      JUndefined (JString (js ''fr-FR'')) True = Inr (JString (js ''fr-FR''), True)"
    by (simp add: e)
  note d = Citer_locale [of initial_opts, THEN conjunct2, THEN conjunct1, rule_format, OF n]
  from p e r k d show ?thesis by (intro conjI)
qed

subsection \<open>Reading a file that is not there\<close>

text \<open>
  C1, as stated, fails: \<open>readFile\<close> raises nothing. For a path with no file the file
  manager gives \<open>nil\<close>, and \<open>readFile\<close> returns the unwrapped result of decoding \<open>nil\<close>:
  \<open>undefined\<close> when the decoder gives \<open>nil\<close>, the empty string when it gives the empty
  string. \<open>retrieveLocale\<close> hands that value to the engine.
\<close>

theorem readFile_missing_counterexample:
  "readFile (no_files None) (JString (js ''./locales/locales-fr-FR.xml'')) = Inr JUndefined \<and>
   readFile (no_files (Some [])) (JString (js ''./locales/locales-fr-FR.xml'')) =
     Inr (JString []) \<and>
   snd (retrieveLocale (no_files None) initial_opts (JString (js ''fr-FR''))) = Inr JUndefined \<and>
   snd (retrieveLocale (no_files (Some [])) initial_opts (JString (js ''fr-FR''))) =
     Inr (JString [])"
  by (simp add: no_files_def readFile_def retrieveLocale_def unwrap_def initial_opts_def)

text \<open>
  C1, amended. For every path for which the file manager has no contents, \<open>readFile\<close>
  returns normally, with the value that unwrapping the decoded \<open>nil\<close> gives (an absent or
  empty value, never file contents), and nothing is thrown; \<open>retrieveLocale\<close> returns
  that same value for a locale file that is missing.
\<close>

theorem readFile_missing_returns:
  assumes "contentsAtPath fm path = None"
  shows "readFile fm path = Inr (unwrap (initWithDataEncoding fm None)) \<and>
     (path = JString (toString (localeDir opts) @ js ''/locales-'' @ toString lang @ js ''.xml'') \<longrightarrow>
        snd (retrieveLocale fm opts lang) = Inr (unwrap (initWithDataEncoding fm None)))"
  using assms by (auto simp: readFile_def retrieveLocale_def)

theorem readFile_missing_returns_witness:
  "contentsAtPath (no_files None) (JString (js ''./locales/locales-fr-FR.xml'')) = None \<and>
   JString (js ''./locales/locales-fr-FR.xml'') =
     JString (toString (localeDir initial_opts) @ js ''/locales-'' @
              toString (JString (js ''fr-FR'')) @ js ''.xml'') \<and>
   readFile (no_files None) (JString (js ''./locales/locales-fr-FR.xml'')) =
     Inr (unwrap (initWithDataEncoding (no_files None) None)) \<and>
   snd (retrieveLocale (no_files None) initial_opts (JString (js ''fr-FR''))) =
     Inr (unwrap (initWithDataEncoding (no_files None) None))"
proof -
  have h: "contentsAtPath (no_files None) (JString (js ''./locales/locales-fr-FR.xml'')) = None"
    by (simp add: no_files_def)
  have p: "JString (js ''./locales/locales-fr-FR.xml'') =
     JString (toString (localeDir initial_opts) @ js ''/locales-'' @
              toString (JString (js ''fr-FR'')) @ js ''.xml'')"
    by (simp add: initial_opts_def js_def)
  from readFile_missing_returns [OF h, of initial_opts "JString (js ''fr-FR'')"] h p
  show ?thesis by blast
qed

subsection \<open>What \<open>cite\<close> asks of the engine\<close>

lemma and_then_Inr_iff: "and_then m f = Inr y \<longleftrightarrow> (\<exists>a. m = Inr a \<and> f a = Inr y)"
  by (cases m) (simp_all add: and_then_def)

lemma data_eq: "\<lparr>html = h, rtf = r\<rparr> = d \<longleftrightarrow> html d = h \<and> rtf d = r"
  by (cases d) auto

lemma cite_cluster_iff:
  assumes "\<not> bibliography (this_opts this)"
  shows "cite E this = Inr (d, e4) \<longleftrightarrow>
     (\<exists>e1 e2 e3. updateItems E [this_id this] (this_citer this) = Inr e1 \<and>
        makeCitationCluster E [this_id this] e1 = Inr (html d, e2) \<and>
        setOutputFormat E (js ''rtf'') e2 = Inr e3 \<and>
        makeCitationCluster E [this_id this] e3 = Inr (rtf d, e4))"
  using assms by (auto simp: cite_def and_then_Inr_iff data_eq)

lemma cite_bibliography_iff:
  assumes "bibliography (this_opts this)"
  shows "cite E this = Inr (d, e4) \<longleftrightarrow>
     (\<exists>e1 m1 b1 e2 e3 m2 b2. updateItems E [this_id this] (this_citer this) = Inr e1 \<and>
        makeBibliography E e1 = Inr ((m1, b1), e2) \<and>
        setOutputFormat E (js ''rtf'') e2 = Inr e3 \<and>
        makeBibliography E e3 = Inr ((m2, b2), e4) \<and>
        html d = stripOuterDiv (trim (join [0x000A] b1)) \<and>
        rtf d = join [0x000A] b2)"
  using assms by (auto simp: cite_def and_then_Inr_iff data_eq Let_def)

lemma traced_updateItems:
  "updateItems (traced E) ids t = Inr t' \<longleftrightarrow>
     (\<exists>e. updateItems E ids (engine_state t) = Inr e \<and> t' = record_call (UpdateItems ids) t e)"
  by (auto simp: traced_def and_then_Inr_iff)

lemma traced_makeCitationCluster:
  "makeCitationCluster (traced E) ids t = Inr (r, t') \<longleftrightarrow>
     (\<exists>e. makeCitationCluster E ids (engine_state t) = Inr (r, e) \<and>
          t' = record_call (MakeCitationCluster ids) t e)"
  by (auto simp: traced_def and_then_Inr_iff)

lemma traced_makeBibliography:
  "makeBibliography (traced E) t = Inr (r, t') \<longleftrightarrow>
     (\<exists>e. makeBibliography E (engine_state t) = Inr (r, e) \<and>
          t' = record_call MakeBibliography t e)"
  by (cases r) (auto simp: traced_def and_then_Inr_iff)

lemma traced_setOutputFormat:
  "setOutputFormat (traced E) f t = Inr t' \<longleftrightarrow>
     (\<exists>e. setOutputFormat E f (engine_state t) = Inr e \<and>
          t' = record_call (SetOutputFormat f) t e)"
  by (auto simp: traced_def and_then_Inr_iff)

text \<open>
  C5. In citation-cluster mode, a \<open>cite\<close> that returns has made exactly these calls, in
  this order: \<open>updateItems([X])\<close>, \<open>makeCitationCluster([X])\<close> while the engine still has
  the format it was constructed with, \<open>setOutputFormat('rtf')\<close>, and
  \<open>makeCitationCluster([X])\<close> under the format \<open>rtf\<close>; \<open>html\<close> is what the first cluster
  call returned, on the state before the switch, and \<open>rtf\<close> is what the second returned.
  Conversely \<open>cite\<close> returns whenever these four calls return.
\<close>

theorem cite_cluster_calls:
  assumes "\<not> bibliography opts"
  shows "cite (traced E) \<lparr>this_opts = opts, this_item = item, this_style = style_text,
            this_id = X, this_citer = fresh e\<rparr> = Inr (d, t) \<longleftrightarrow>
     (\<exists>e1 e2 e3 e4. updateItems E [X] e = Inr e1 \<and>
        makeCitationCluster E [X] e1 = Inr (html d, e2) \<and>
        setOutputFormat E (js ''rtf'') e2 = Inr e3 \<and>
        makeCitationCluster E [X] e3 = Inr (rtf d, e4) \<and>
        t = \<lparr>engine_state = e4, format = Some (js ''rtf''),
             calls = [(None, UpdateItems [X]), (None, MakeCitationCluster [X]),
                      (None, SetOutputFormat (js ''rtf'')),
                      (Some (js ''rtf''), MakeCitationCluster [X])]\<rparr>)"
  using assms
  by (auto simp: cite_cluster_iff traced_updateItems traced_makeCitationCluster
      traced_setOutputFormat record_call_def fresh_def)

theorem cite_cluster_calls_witness:
  "\<not> bibliography (initial_opts\<lparr>bibliography := False\<rparr>) \<and>
   updateItems (sample_engine []) [js ''r1''] (js ''html'') = Inr (js ''html'') \<and>
   makeCitationCluster (sample_engine []) [js ''r1''] (js ''html'') =
     Inr (js ''html:r1'', js ''html'') \<and>
   setOutputFormat (sample_engine []) (js ''rtf'') (js ''html'') = Inr (js ''rtf'') \<and>
   makeCitationCluster (sample_engine []) [js ''r1''] (js ''rtf'') =
     Inr (js ''rtf:r1'', js ''rtf'') \<and>
   cite (traced (sample_engine []))
     \<lparr>this_opts = initial_opts\<lparr>bibliography := False\<rparr>, this_item = (),
      this_style = JString (js ''<style/>''), this_id = js ''r1'',
      this_citer = fresh (js ''html'')\<rparr> =
     Inr (\<lparr>html = js ''html:r1'', rtf = js ''rtf:r1''\<rparr>,
          \<lparr>engine_state = js ''rtf'', format = Some (js ''rtf''),
           calls = [(None, UpdateItems [js ''r1'']), (None, MakeCitationCluster [js ''r1'']),
                    (None, SetOutputFormat (js ''rtf'')),
                    (Some (js ''rtf''), MakeCitationCluster [js ''r1''])]\<rparr>)"
proof -
  have h: "\<not> bibliography (initial_opts\<lparr>bibliography := False\<rparr>)" by simp
  have c: "updateItems (sample_engine []) [js ''r1''] (js ''html'') = Inr (js ''html'')"
    "makeCitationCluster (sample_engine []) [js ''r1''] (js ''html'') =
       Inr (js ''html:r1'', js ''html'')"
    "setOutputFormat (sample_engine []) (js ''rtf'') (js ''html'') = Inr (js ''rtf'')"
    "makeCitationCluster (sample_engine []) [js ''r1''] (js ''rtf'') =
       Inr (js ''rtf:r1'', js ''rtf'')"
    by (simp_all add: sample_engine_def js_def)
  note t = cite_cluster_calls [OF h, of "sample_engine []" "()" "JString (js ''<style/>'')"
      "js ''r1''" "js ''html''" "\<lparr>html = js ''html:r1'', rtf = js ''rtf:r1''\<rparr>", THEN iffD2]
  have "cite (traced (sample_engine []))
     \<lparr>this_opts = initial_opts\<lparr>bibliography := False\<rparr>, this_item = (),
      this_style = JString (js ''<style/>''), this_id = js ''r1'',
      this_citer = fresh (js ''html'')\<rparr> =
     Inr (\<lparr>html = js ''html:r1'', rtf = js ''rtf:r1''\<rparr>,
          \<lparr>engine_state = js ''rtf'', format = Some (js ''rtf''),
           calls = [(None, UpdateItems [js ''r1'']), (None, MakeCitationCluster [js ''r1'']),
                    (None, SetOutputFormat (js ''rtf'')),
                    (Some (js ''rtf''), MakeCitationCluster [js ''r1''])]\<rparr>)"
    by (rule t) (use c in simp)
  with h c show ?thesis by (intro conjI)
qed

text \<open>
  C6. In bibliography mode, a \<open>cite\<close> that returns has called \<open>updateItems([X])\<close>,
  \<open>makeBibliography()\<close> under the format the engine was constructed with,
  \<open>setOutputFormat('rtf')\<close> and \<open>makeBibliography()\<close> again, in this order. \<open>html\<close> is the
  second element of the first result joined with newlines, trimmed, then passed through
  \<open>stripOuterDiv\<close>; \<open>rtf\<close> is the second element of the second result joined with
  newlines, and nothing else is done to it. Conversely \<open>cite\<close> returns whenever these
  four calls return.
\<close>

theorem cite_bibliography_fields:
  assumes "bibliography opts"
  shows "cite (traced E) \<lparr>this_opts = opts, this_item = item, this_style = style_text,
            this_id = X, this_citer = fresh e\<rparr> = Inr (d, t) \<longleftrightarrow>
     (\<exists>e1 m1 b1 e2 e3 m2 b2 e4. updateItems E [X] e = Inr e1 \<and>
        makeBibliography E e1 = Inr ((m1, b1), e2) \<and>
        setOutputFormat E (js ''rtf'') e2 = Inr e3 \<and>
        makeBibliography E e3 = Inr ((m2, b2), e4) \<and>
        html d = stripOuterDiv (trim (join [0x000A] b1)) \<and>
        rtf d = join [0x000A] b2 \<and>
        t = \<lparr>engine_state = e4, format = Some (js ''rtf''),
             calls = [(None, UpdateItems [X]), (None, MakeBibliography),
                      (None, SetOutputFormat (js ''rtf'')),
                      (Some (js ''rtf''), MakeBibliography)]\<rparr>)"
  using assms
  by (auto simp: cite_bibliography_iff traced_updateItems traced_makeBibliography
      traced_setOutputFormat record_call_def fresh_def)

theorem cite_bibliography_fields_witness:
  "bibliography (initial_opts\<lparr>bibliography := True\<rparr>) \<and>
   cite (traced (sample_engine [js ''  <div class=csl-entry>Doe, J. (2020). Title.</div>'' @ [0x000A]]))
     \<lparr>this_opts = initial_opts\<lparr>bibliography := True\<rparr>, this_item = (),
      this_style = JString (js ''<style/>''), this_id = js ''r1'',
      this_citer = fresh (js ''html'')\<rparr> =
     Inr (\<lparr>html = js ''Doe, J. (2020). Title.'', rtf = js ''{entry}''\<rparr>,
          \<lparr>engine_state = js ''rtf'', format = Some (js ''rtf''),
           calls = [(None, UpdateItems [js ''r1'']), (None, MakeBibliography),
                    (None, SetOutputFormat (js ''rtf'')),
                    (Some (js ''rtf''), MakeBibliography)]\<rparr>)"
proof -
  let ?entry = "js ''  <div class=csl-entry>Doe, J. (2020). Title.</div>'' @ [0x000A]"
  have h: "bibliography (initial_opts\<lparr>bibliography := True\<rparr>)" by simp
  have t: "trim ?entry = js ''<div class=csl-entry>Doe, J. (2020). Title.</div>''"
    by (simp add: trim_def trimmable_def isWhiteSpace_def isLineTerminator_def js_def)
  have s: "stripOuterDiv (js ''<div class=csl-entry>Doe, J. (2020). Title.</div>'') =
      js ''Doe, J. (2020). Title.''"
    by (simp add: stripOuterDiv_def exec_pattern_def group_then_close_def js_def dot_def
        isLineTerminator_def)
  have c: "updateItems (sample_engine [?entry]) [js ''r1''] (js ''html'') = Inr (js ''html'')"
    "makeBibliography (sample_engine [?entry]) (js ''html'') = Inr (((), [?entry]), js ''html'')"
    "setOutputFormat (sample_engine [?entry]) (js ''rtf'') (js ''html'') = Inr (js ''rtf'')"
    "makeBibliography (sample_engine [?entry]) (js ''rtf'') =
       Inr (((), [js ''{entry}'']), js ''rtf'')"
    by (simp_all add: sample_engine_def js_def)
  note r = cite_bibliography_fields [OF h, of "sample_engine [?entry]" "()"
      "JString (js ''<style/>'')" "js ''r1''" "js ''html''"
      "\<lparr>html = js ''Doe, J. (2020). Title.'', rtf = js ''{entry}''\<rparr>", THEN iffD2]
  have "cite (traced (sample_engine [?entry]))
     \<lparr>this_opts = initial_opts\<lparr>bibliography := True\<rparr>, this_item = (),
      this_style = JString (js ''<style/>''), this_id = js ''r1'',
      this_citer = fresh (js ''html'')\<rparr> =
     Inr (\<lparr>html = js ''Doe, J. (2020). Title.'', rtf = js ''{entry}''\<rparr>,
          \<lparr>engine_state = js ''rtf'', format = Some (js ''rtf''),
           calls = [(None, UpdateItems [js ''r1'']), (None, MakeBibliography),
                    (None, SetOutputFormat (js ''rtf'')),
                    (Some (js ''rtf''), MakeBibliography)]\<rparr>)"
    by (rule r) (simp add: c t s)
  with h show ?thesis by (intro conjI)
qed

subsection \<open>The wrapper of the bibliography\<close>

lemma length_trim: "length (trim s) \<le> length s"
proof -
  have "length (trim s) = length (dropWhile trimmable (rev (dropWhile trimmable s)))"
    by (simp add: trim_def)
  also have "\<dots> \<le> length (rev (dropWhile trimmable s))" by (rule length_dropWhile_le)
  also have "\<dots> \<le> length s" by (simp add: length_dropWhile_le)
  finally show ?thesis .
qed

lemma trim_id:
  assumes "s \<noteq> []" and "\<not> trimmable (hd s)" and "\<not> trimmable (last s)"
  shows "trim s = s"
proof -
  from assms have "dropWhile trimmable s = s" by (cases s) simp_all
  moreover from assms have "dropWhile trimmable (rev s) = rev s"
    by (cases "rev s") (simp_all add: last_rev [symmetric] hd_rev)
  ultimately show ?thesis by (simp add: trim_def)
qed

lemma trim_wrapper:
  assumes "wrapper_shape s"
  shows "trim s = s"
proof -
  from assms obtain a where "decomposes s a (inner s)" using shape_decomposes by blast
  then have s: "s = js ''<div'' @ (a @ 0x3E # inner s) @ js ''</div>''"
    by (simp add: decomposes_def)
  have "hd s = 0x3C" by (subst s) (simp add: open_tag)
  moreover have "last s = 0x3E" by (subst s) (simp add: close_tag)
  moreover have "s \<noteq> []" by (subst s) (simp add: open_tag)
  ultimately show ?thesis
    by (intro trim_id) (simp_all add: trimmable_def isWhiteSpace_def isLineTerminator_def)
qed

text \<open>
  Where the expression matches, \<open>cite\<close> does remove the wrapper: when the bibliography
  the engine returns, joined with newlines and trimmed, has the shape \<open><div\<close> \<open>a\<close> \<open>>\<close>
  \<open>g\<close> \<open></div>\<close> with \<open>g\<close> non-empty and no line terminator in \<open>a\<close> or \<open>g\<close>, the \<open>html\<close>
  field is \<open>g\<close>, and it differs from the raw string. The second lemma is this path on
  a one-line entry.
\<close>

lemma bibliography_html_unwrapped:
  assumes "bibliography (this_opts this)"
    and "updateItems E [this_id this] (this_citer this) = Inr e1"
    and "makeBibliography E e1 = Inr ((m, entries), e2)"
    and "cite E this = Inr (d, e')"
    and "wrapper_shape (trim (join [0x000A] entries))"
  shows "html d = inner (trim (join [0x000A] entries)) \<and> html d \<noteq> join [0x000A] entries \<and>
     (\<exists>a. 0x3E \<notin> set a \<and>
          trim (join [0x000A] entries) = js ''<div'' @ a @ 0x3E # html d @ js ''</div>'')"
proof -
  let ?raw = "join [0x000A] entries"
  from assms(1-4) have "html d = stripOuterDiv (trim ?raw)"
    by (auto simp: cite_bibliography_iff)
  with assms(5) have h: "html d = inner (trim ?raw)"
    by (simp add: stripOuterDiv_shape)
  have "length (trim ?raw) \<le> length ?raw" by (rule length_trim)
  with inner_shorter [OF assms(5)] h have "html d \<noteq> ?raw" by auto
  moreover from shape_decomposes [OF assms(5)] h
  have "\<exists>a. 0x3E \<notin> set a \<and> trim ?raw = js ''<div'' @ a @ 0x3E # html d @ js ''</div>''"
    by (auto simp: decomposes_def)
  ultimately show ?thesis using h by blast
qed

lemma bibliography_html_unwrapped_one_line:
  "bibliography (this_opts (sample_citer True (js ''html'') :: (unit, jsstr, jsstr) citer)) \<and>
   wrapper_shape
     (trim (join [0x000A] [js ''  <div class=csl-entry>Doe, J. (2020). Title.</div>'' @ [0x000A]])) \<and>
   cite (sample_engine [js ''  <div class=csl-entry>Doe, J. (2020). Title.</div>'' @ [0x000A]])
     (sample_citer True (js ''html'')) =
     Inr (\<lparr>html = js ''Doe, J. (2020). Title.'', rtf = js ''{entry}''\<rparr>, js ''rtf'') \<and>
   js ''Doe, J. (2020). Title.'' =
     inner (trim (join [0x000A]
       [js ''  <div class=csl-entry>Doe, J. (2020). Title.</div>'' @ [0x000A]])) \<and>
   js ''Doe, J. (2020). Title.'' \<noteq>
     join [0x000A] [js ''  <div class=csl-entry>Doe, J. (2020). Title.</div>'' @ [0x000A]]"
proof -
  let ?entry = "js ''  <div class=csl-entry>Doe, J. (2020). Title.</div>'' @ [0x000A]"
  let ?w = "sample_citer True (js ''html'') :: (unit, jsstr, jsstr) citer"
  let ?d = "\<lparr>html = js ''Doe, J. (2020). Title.'', rtf = js ''{entry}''\<rparr>"
  have t: "trim (join [0x000A] [?entry]) = js ''<div class=csl-entry>Doe, J. (2020). Title.</div>''"
    by (simp add: trim_def trimmable_def isWhiteSpace_def isLineTerminator_def js_def)
  have 1: "bibliography (this_opts ?w)" by (simp add: sample_citer_def)
  have 2: "updateItems (sample_engine [?entry]) [this_id ?w] (this_citer ?w) =
      Inr (js ''html'')"
    by (simp add: sample_engine_def sample_citer_def)
  have 3: "makeBibliography (sample_engine [?entry]) (js ''html'') =
      Inr (((), [?entry]), js ''html'')"
    by (simp add: sample_engine_def)
  have 4: "cite (sample_engine [?entry]) ?w = Inr (?d, js ''rtf'')"
    by (simp add: cite_def sample_citer_def initial_opts_def and_then_def sample_engine_def
        trim_def trimmable_def isWhiteSpace_def isLineTerminator_def stripOuterDiv_def
        exec_pattern_def group_then_close_def dot_def js_def)
  have 5: "wrapper_shape (trim (join [0x000A] [?entry]))"
    unfolding t by (simp add: wrapper_shape_def between_tags_def dot_def isLineTerminator_def js_def)
  have e: "html ?d = js ''Doe, J. (2020). Title.''" by simp
  note u = bibliography_html_unwrapped [OF 1 2 3 4 5]
  from u [THEN conjunct1]
  have 6: "js ''Doe, J. (2020). Title.'' = inner (trim (join [0x000A] [?entry]))"
    unfolding e .
  from u [THEN conjunct2, THEN conjunct1]
  have 7: "js ''Doe, J. (2020). Title.'' \<noteq> join [0x000A] [?entry]"
    unfolding e .
  from 1 5 4 6 7 show ?thesis by (intro conjI)
qed

text \<open>
  C3. A bibliography that is wrapped in a single outer element spanning the whole
  string must never come back as \<open>html\<close> unchanged: the outer tags are to be stripped
  once. The code does not do so when the content of the wrapper holds a line break:
  \<open>.\<close> does not match a line terminator, the expression fails, and \<open>stripOuterDiv\<close>
  returns its input. At the entry below, one \<open>div\<close> around two lines, \<open>html\<close> is the raw
  string, wrapper included.
\<close>

theorem bibliography_two_lines_keeps_wrapper:
  "join [0x000A] [js ''<div class=csl-entry>Doe, J. (2020).'' @ [0x000A] @ js ''Title.</div>''] =
     js ''<div class=csl-entry>Doe, J. (2020).'' @ [0x000A] @ js ''Title.</div>'' \<and>
   cite (sample_engine [js ''<div class=csl-entry>Doe, J. (2020).'' @ [0x000A] @ js ''Title.</div>''])
     (sample_citer True (js ''html'')) =
     Inr (\<lparr>html = js ''<div class=csl-entry>Doe, J. (2020).'' @ [0x000A] @ js ''Title.</div>'',
           rtf = js ''{entry}''\<rparr>, js ''rtf'')"
  by (simp add: cite_def sample_citer_def initial_opts_def and_then_def sample_engine_def
      trim_def trimmable_def isWhiteSpace_def isLineTerminator_def stripOuterDiv_def
      exec_pattern_def group_then_close_def dot_def js_def)

end
